theory Spec2Isabelle
  imports Complex_Main "HOL-Library.Multiset"
begin

section \<open>Data model\<close>

text \<open>
  JSON values as they travel in tool arguments and request parameters. JavaScript numbers
  are restricted to integers here: the numbers of this program are card and note
  identifiers, counts and the integer scheduling figures of a card.
\<close>

datatype json = JNull | JBool bool | JNum int | JStr string
  | JArr "json list" | JObj "(string \<times> json) list"

type_synonym params = "(string \<times> json) list"

text \<open>JavaScript truthiness of a JSON value, as used by \<open>!x\<close> and \<open>x || y\<close>.\<close>

fun truthy :: "json \<Rightarrow> bool" where
  "truthy JNull = False"
| "truthy (JBool b) = b"
| "truthy (JNum n) = (n \<noteq> 0)"
| "truthy (JStr s) = (s \<noteq> [])"
| "truthy (JArr xs) = True"
| "truthy (JObj kvs) = True"

text \<open>The card-level record of the collaborator (\<open>cardsInfo\<close>): the fields the code reads,
  and \<open>modelName\<close>, which the mock response also carries.\<close>

record raw_card =
  cardId :: int
  card_note :: int
  deckName :: string
  cardModelName :: string
  interval :: int
  factor :: int
  reps :: int
  lapses :: int

record field_val =
  f_value :: string
  f_order :: int

text \<open>The note-level record of the collaborator (\<open>notesInfo\<close>).\<close>

record raw_note =
  noteId :: int
  modelName :: string
  tags :: "string list"
  note_fields :: "(string \<times> field_val) list"

text \<open>The interface \<open>CardInfo\<close> with its nested \<open>statistics\<close> object.\<close>

record statistics =
  ease :: rat
  st_interval :: int
  reviews :: int
  st_lapses :: int

record card_info =
  ci_id :: int
  ci_noteId :: int
  ci_deck :: string
  ci_modelName :: string
  ci_fields :: "(string \<times> field_val) list"
  ci_tags :: "string list"
  ci_front :: string
  ci_back :: string
  ci_statistics :: statistics

text \<open>
  What \<open>response.data.result\<close> can hold. The source types it \<open>any\<close>; the model gives the
  results of the five actions their shapes. A result of the wrong shape for the caller that
  receives it is reported as \<open>IllTyped\<close> by that caller.
\<close>

datatype val = VNull | VBool bool | VStr string | VIds "int list"
  | VCards "raw_card list" | VNotes "raw_note list"

text \<open>Thrown values: \<open>new Error(message)\<close>, a \<open>TypeError\<close> of the runtime, an \<open>McpError\<close>,
  a thrown value that is no \<open>Error\<close> instance, and data outside the typed model.\<close>

datatype js_error = Error string | TypeError | McpError string | NonError | IllTyped

text \<open>
  What one \<open>axiosInstance.post\<close> does: it resolves with a body \<open>{result, error}\<close>, rejects
  with an \<open>AxiosError\<close> (its optional \<open>code\<close> and its \<open>message\<close>), or rejects with something
  that is not an \<open>AxiosError\<close>.
\<close>

datatype http_outcome =
    Response "string option" val
  | AxiosFail "string option" string
  | OtherFail js_error

datatype log_msg =
    ConnResetRetrying nat
  | MockAction string
  | MockParams params
  | MockUnknownAction string
  | MockWouldAddTag json "json list"
  | NoteInfoNotFound int
  | ErrorInGetCardsInfo js_error
  | NoCardsToTag
  | NoNoteIdsFound
  | TagAdded string nat nat
  | ErrorAddingTags js_error

text \<open>The observable effects, in the order they happen: an HTTP post of \<open>{action, version,
  params}\<close>, a \<open>delay(ms)\<close>, a line on \<open>console.error\<close>.\<close>

datatype event = Post string params | Delay rat | Log log_msg

record date =
  fullYear :: nat
  month0 :: nat
  dayOfMonth :: nat

text \<open>
  The mutable world: how many posts, random draws and clock reads have happened, and the
  trace of effects. The environment answers the \<open>k\<close>-th post, draw and clock read.
\<close>

record sys =
  posts :: nat
  draws :: nat
  clock_reads :: nat
  trace :: "event list"

record client =
  mockMode :: bool
  transport :: "nat \<Rightarrow> string \<Rightarrow> params \<Rightarrow> http_outcome"

section \<open>Transport client\<close>

definition emit :: "event \<Rightarrow> sys \<Rightarrow> sys" where
  "emit e s = s\<lparr>trace := trace s @ [e]\<rparr>"

definition delay :: "rat \<Rightarrow> sys \<Rightarrow> sys" where
  "delay ms s = emit (Delay ms) s"

definition console_error :: "log_msg \<Rightarrow> sys \<Rightarrow> sys" where
  "console_error m s = emit (Log m) s"

text \<open>Property access \<open>params.key\<close>: \<open>None\<close> is \<open>undefined\<close>.\<close>

definition get_prop :: "params \<Rightarrow> string \<Rightarrow> json option" where
  "get_prop ps k = map_of ps k"

text \<open>\<open>x || []\<close> on a property.\<close>

definition or_empty :: "json option \<Rightarrow> json" where
  "or_empty v = (case v of None \<Rightarrow> JArr [] | Some j \<Rightarrow> if truthy j then j else JArr [])"

fun nums :: "json list \<Rightarrow> int list option" where
  "nums [] = Some []"
| "nums (JNum n # xs) = (case nums xs of None \<Rightarrow> None | Some ns \<Rightarrow> Some (n # ns))"
| "nums (_ # xs) = None"

definition mock_card :: "int \<Rightarrow> raw_card" where
  "mock_card cid = \<lparr>cardId = cid, card_note = cid + 1000000, deckName = ''Mock Deck'',
     cardModelName = ''Mock Model'', interval = 10, factor = 2500, reps = 5, lapses = 2\<rparr>"

definition mock_note :: "int \<Rightarrow> raw_note" where
  "mock_note nid = \<lparr>noteId = nid, modelName = ''Mock Model'', tags = [''leech'', ''mock_tag''],
     note_fields = [(''Front'', \<lparr>f_value = ''Mock front content'', f_order = 0\<rparr>),
               (''Back'', \<lparr>f_value = ''Mock back content'', f_order = 1\<rparr>)]\<rparr>"

text \<open>\<open>xs.map(f)\<close> on a value that may not be an array: a \<open>TypeError\<close> when it is none; array
  items that are not numbers are outside the typed model.\<close>

definition map_ids :: "json \<Rightarrow> (int list \<Rightarrow> val) \<Rightarrow> js_error + val" where
  "map_ids j f = (case j of
       JArr xs \<Rightarrow> (case nums xs of Some ns \<Rightarrow> Inr (f ns) | None \<Rightarrow> Inl IllTyped)
     | _ \<Rightarrow> Inl TypeError)"

definition getMockResponse :: "string \<Rightarrow> params \<Rightarrow> sys \<Rightarrow> (js_error + val) \<times> sys" where
  "getMockResponse action ps s0 =
     (let s = console_error (MockParams ps) (console_error (MockAction action) s0) in
      if action = ''version'' then (Inr (VStr ''6''), s)
      else if action = ''findCards'' then (Inr (VIds [1234567890, 1234567891, 1234567892]), s)
      else if action = ''cardsInfo'' then
        (map_ids (or_empty (get_prop ps ''cards'')) (\<lambda>ids. VCards (map mock_card ids)), s)
      else if action = ''notesInfo'' then
        (map_ids (or_empty (get_prop ps ''notes'')) (\<lambda>ids. VNotes (map mock_note ids)), s)
      else if action = ''addTags'' then
        (case get_prop ps ''notes'' of
           Some (JArr ns) \<Rightarrow>
             (Inr (VBool True),
              console_error (MockWouldAddTag (case get_prop ps ''tags'' of None \<Rightarrow> JNull | Some t \<Rightarrow> t) ns) s)
         | _ \<Rightarrow> (Inl TypeError, s))
      else (Inr VNull, console_error (MockUnknownAction action) s))"

text \<open>\<open>Math.pow(2, k)\<close> for an integer \<open>k\<close>.\<close>

definition pow2 :: "int \<Rightarrow> rat" where
  "pow2 k = (if 0 \<le> k then 2 ^ nat k else 1 / 2 ^ nat (- k))"

text \<open>\<open>axiosError.code || axiosError.message\<close>.\<close>

definition code_or_message :: "string option \<Rightarrow> string \<Rightarrow> string" where
  "code_or_message code msg = (case code of None \<Rightarrow> msg | Some c \<Rightarrow> if c \<noteq> [] then c else msg)"

text \<open>\<open>if (response.data.error)\<close>: \<open>null\<close> and the empty string are falsy.\<close>

definition error_set :: "string option \<Rightarrow> bool" where
  "error_set err = (case err of None \<Rightarrow> False | Some m \<Rightarrow> m \<noteq> [])"

text \<open>
  \<open>AnkiConnectClient.request(action, params, retries)\<close>. Every caller in the source leaves
  \<open>retries\<close> at its default 3.
\<close>

fun request :: "client \<Rightarrow> string \<Rightarrow> params \<Rightarrow> nat \<Rightarrow> sys \<Rightarrow> (js_error + val) \<times> sys" where
  "request cl action ps retries s =
     (if mockMode cl then getMockResponse action ps s
      else
        (let s1 = emit (Post action ps) (s\<lparr>posts := posts s + 1\<rparr>) in
         case transport cl (posts s) action ps of
           Response err res \<Rightarrow>
             if error_set err then (Inl (Error (''AnkiConnect error: '' @ the err)), s1)
             else (Inr res, delay 50 s1)
         | AxiosFail code msg \<Rightarrow>
             if code = Some ''ECONNREFUSED'' then
               (Inl (Error ''Could not connect to Anki. Is Anki running with AnkiConnect installed?''), s1)
             else if code = Some ''ECONNRESET'' \<and> retries > 0 then
               request cl action ps (retries - 1)
                 (delay (500 * pow2 (3 - int retries)) (console_error (ConnResetRetrying retries) s1))
             else (Inl (Error (''Network error: '' @ code_or_message code msg)), s1)
         | OtherFail e \<Rightarrow> (Inl e, s1)))"

declare request.simps [simp del]

text \<open>\<open>isAvailable()\<close>: whether the version probe succeeds; it never throws.\<close>

definition isAvailable :: "client \<Rightarrow> sys \<Rightarrow> bool \<times> sys" where
  "isAvailable cl s = (case request cl ''version'' [] 3 s of
       (Inr v, s1) \<Rightarrow> (True, s1)
     | (Inl e, s1) \<Rightarrow> (False, s1))"

definition findLeechCards :: "client \<Rightarrow> sys \<Rightarrow> (js_error + val) \<times> sys" where
  "findLeechCards cl s = request cl ''findCards'' [(''query'', JStr ''tag:leech'')] 3 s"

section \<open>Batch hydrator\<close>

text \<open>
  An array element that is an object: its reference and its content. \<open>Array.indexOf\<close>
  compares objects by reference; it answers -1 when nothing matches.
\<close>

type_synonym 'a obj = "nat \<times> 'a"

fun indexOf :: "'a obj list \<Rightarrow> 'a obj \<Rightarrow> int" where
  "indexOf [] x = - 1"
| "indexOf (y # ys) x =
     (if fst y = fst x then 0 else (let k = indexOf ys x in if k < 0 then - 1 else k + 1))"

text \<open>Every element of a parsed (or freshly mapped) array is an object of its own: the
  position at which it was created serves as its reference.\<close>

definition fresh_objects :: "'a list \<Rightarrow> 'a obj list" where
  "fresh_objects xs = zip [0..<length xs] xs"

text \<open>\<open>[...new Set(xs)]\<close>: the distinct values in the order of their first occurrence.\<close>

definition unique :: "int list \<Rightarrow> int list" where
  "unique xs = fold (\<lambda>x seen. if x \<in> set seen then seen else seen @ [x]) xs []"

text \<open>The \<open>Map\<close> filled by \<open>notesInfoArray.forEach\<close>: a later entry replaces an earlier one.\<close>

definition notes_map :: "raw_note list \<Rightarrow> (int \<rightharpoonup> raw_note)" where
  "notes_map notesInfoArray = fold (\<lambda>noteInfo m. m(noteId noteInfo \<mapsto> noteInfo)) notesInfoArray Map.empty"

definition BATCH_SIZE :: nat where
  "BATCH_SIZE = 5"

definition placeholder :: string where
  "placeholder = ''[Basic card information only]''"

text \<open>The object pushed onto \<open>result\<close>. \<open>cardInfo.factor / 1000\<close> is a division of JavaScript
  numbers; the model divides exactly, which is what the double division gives whenever the
  quotient is representable (2500 / 1000 = 2.5 is).\<close>

definition combine :: "raw_card \<Rightarrow> raw_note \<Rightarrow> card_info" where
  "combine cardInfo noteInfo =
     \<lparr>ci_id = cardId cardInfo, ci_noteId = card_note cardInfo, ci_deck = deckName cardInfo,
      ci_modelName = modelName noteInfo, ci_fields = note_fields noteInfo, ci_tags = tags noteInfo,
      ci_front = placeholder, ci_back = placeholder,
      ci_statistics = \<lparr>ease = of_int (factor cardInfo) / 1000, st_interval = interval cardInfo,
        reviews = reps cardInfo, st_lapses = lapses cardInfo\<rparr>\<rparr>"

text \<open>
  The body of the inner loop \<open>for (const cardInfo of batch)\<close>, with \<open>i\<close> the start index of
  the batch. Its \<open>try\<close> has nothing to catch on records of the typed model.
\<close>

definition process_card ::
  "(int \<rightharpoonup> raw_note) \<Rightarrow> nat \<Rightarrow> raw_card obj list \<Rightarrow> raw_card obj \<Rightarrow>
   card_info list \<times> sys \<Rightarrow> card_info list \<times> sys" where
  "process_card notesInfoMap i batch cardInfo st =
     (let s1 = (if i > 0 \<or> indexOf batch cardInfo > 0 then delay 100 (snd st) else snd st) in
      case notesInfoMap (card_note (snd cardInfo)) of
        None \<Rightarrow> (fst st, console_error (NoteInfoNotFound (card_note (snd cardInfo))) s1)
      | Some noteInfo \<Rightarrow> (fst st @ [combine (snd cardInfo) noteInfo], s1))"

text \<open>The outer loop \<open>for (let i = 0; i < cardsInfo.length; i += BATCH_SIZE)\<close>.\<close>

function batches ::
  "(int \<rightharpoonup> raw_note) \<Rightarrow> raw_card obj list \<Rightarrow> nat \<Rightarrow> card_info list \<times> sys \<Rightarrow> card_info list \<times> sys" where
  "batches notesInfoMap cardsInfo i st =
     (if i < length cardsInfo then
        (let batch = take BATCH_SIZE (drop i cardsInfo);
             st1 = fold (process_card notesInfoMap i batch) batch st;
             st2 = (if i + BATCH_SIZE < length cardsInfo then (fst st1, delay 500 (snd st1)) else st1)
         in batches notesInfoMap cardsInfo (i + BATCH_SIZE) st2)
      else st)"
  by pat_completeness auto
termination
  by (relation "measure (\<lambda>(m, cardsInfo, i, st). length cardsInfo - i)") (auto simp: BATCH_SIZE_def)

declare batches.simps [simp del]

text \<open>What calling an array method on a result of the wrong shape throws.\<close>

definition shape_error :: "val \<Rightarrow> js_error" where
  "shape_error v = (case v of VNull \<Rightarrow> TypeError | VBool b \<Rightarrow> TypeError | VStr x \<Rightarrow> TypeError
     | _ \<Rightarrow> IllTyped)"

definition getCardsInfo :: "client \<Rightarrow> int list \<Rightarrow> sys \<Rightarrow> (js_error + card_info list) \<times> sys" where
  "getCardsInfo cl cardIds s =
     (if length cardIds = 0 then (Inr [], s)
      else
        (case request cl ''cardsInfo'' [(''cards'', JArr (map JNum cardIds))] 3 s of
           (Inl e, s1) \<Rightarrow> (Inl e, console_error (ErrorInGetCardsInfo e) s1)
         | (Inr (VCards cs), s1) \<Rightarrow>
             (let cardsInfo = fresh_objects cs;
                  noteIds = map card_note cs;
                  uniqueNoteIds = unique noteIds in
              case request cl ''notesInfo'' [(''notes'', JArr (map JNum uniqueNoteIds))] 3 s1 of
                (Inl e, s2) \<Rightarrow> (Inl e, console_error (ErrorInGetCardsInfo e) s2)
              | (Inr (VNotes notesInfoArray), s2) \<Rightarrow>
                  (let st = batches (notes_map notesInfoArray) cardsInfo 0 ([], s2)
                   in (Inr (fst st), snd st))
              | (Inr v, s2) \<Rightarrow>
                  (Inl (shape_error v), console_error (ErrorInGetCardsInfo (shape_error v)) s2))
         | (Inr v, s1) \<Rightarrow>
             (Inl (shape_error v), console_error (ErrorInGetCardsInfo (shape_error v)) s1)))"

section \<open>Sampler\<close>

text \<open>
  The arrays of identifiers live in a heap, so that copying and mutating in place can be
  told apart: an address is an index into the heap, allocation appends.
\<close>

type_synonym heap = "int list list"

text \<open>\<open>[a[i], a[j]] = [a[j], a[i]]\<close>: both reads precede both writes.\<close>

definition swap :: "nat \<Rightarrow> nat \<Rightarrow> int list \<Rightarrow> int list" where
  "swap i j a = (a[i := a ! j])[j := a ! i]"

text \<open>
  \<open>Math.random() * (i + 1)\<close> is a product of doubles: the exact product rounded to the
  nearest double, ties to the even significand. \<open>ilog2 x\<close> is the binary exponent of a
  positive \<open>x\<close>, so that \<open>pow2 (ilog2 x - 52)\<close> is the spacing of the doubles around \<open>x\<close>
  (53 significant bits). The exponent range is left unbounded: a product of a double and a
  small integer neither overflows nor loses bits to the subnormal range.
\<close>

function ilog2_up :: "rat \<Rightarrow> int" where
  "ilog2_up x = (if x < 2 then 0 else ilog2_up (x / 2) + 1)"
  by pat_completeness auto
termination
proof (relation "measure (\<lambda>x. nat \<lfloor>x\<rfloor>)")
  show "wf (measure (\<lambda>x::rat. nat \<lfloor>x\<rfloor>))" by simp
next
  fix x :: rat
  assume "\<not> x < 2"
  then have "2 \<le> x" by simp
  then have "\<lfloor>x / 2\<rfloor> < \<lfloor>x\<rfloor>" "0 < \<lfloor>x\<rfloor>"
    by (simp_all add: floor_less_iff less_floor_iff) linarith
  then show "(x / 2, x) \<in> measure (\<lambda>x. nat \<lfloor>x\<rfloor>)" by simp
qed

function ilog2_down :: "rat \<Rightarrow> int" where
  "ilog2_down x = (if x \<le> 0 \<or> 1 \<le> x then 0 else ilog2_down (2 * x) - 1)"
  by pat_completeness auto
termination
proof (relation "measure (\<lambda>x. nat \<lceil>1 / x\<rceil>)")
  show "wf (measure (\<lambda>x::rat. nat \<lceil>1 / x\<rceil>))" by simp
next
  fix x :: rat
  assume "\<not> (x \<le> 0 \<or> 1 \<le> x)"
  then have x: "0 < x" "x < 1" by simp_all
  then have y: "1 < 1 / x" by simp
  have "1 / (2 * x) \<le> of_int \<lceil>1 / x\<rceil> / 2"
    using x by (simp add: divide_simps)
  moreover have "of_int \<lceil>1 / x\<rceil> / 2 \<le> (of_int (\<lceil>1 / x\<rceil> - 1) :: rat)"
  proof -
    have "2 \<le> \<lceil>1 / x\<rceil>" using y by (simp add: le_ceiling_iff)
    then have "(2::rat) \<le> of_int \<lceil>1 / x\<rceil>" by (metis of_int_le_iff of_int_numeral)
    then show ?thesis by simp
  qed
  ultimately have "1 / (2 * x) \<le> of_int (\<lceil>1 / x\<rceil> - 1)" by linarith
  then have "\<lceil>1 / (2 * x)\<rceil> \<le> \<lceil>1 / x\<rceil> - 1" by (simp only: ceiling_le_iff)
  moreover have "0 < \<lceil>1 / x\<rceil>" using x by (simp add: less_ceiling_iff)
  ultimately show "(2 * x, x) \<in> measure (\<lambda>x. nat \<lceil>1 / x\<rceil>)" by simp
qed


declare ilog2_up.simps [simp del] ilog2_down.simps [simp del]

definition ilog2 :: "rat \<Rightarrow> int" where
  "ilog2 x = (if 1 \<le> x then ilog2_up x else ilog2_down x)"

definition round_half_even :: "rat \<Rightarrow> int" where
  "round_half_even q =
     (let f = \<lfloor>q\<rfloor>; r = q - of_int f in
      if r < 1 / 2 then f else if 1 / 2 < r then f + 1 else if even f then f else f + 1)"

definition to_double :: "rat \<Rightarrow> rat" where
  "to_double x =
     (if x = 0 then 0
      else (let ulp = pow2 (ilog2 \<bar>x\<bar> - 52) in of_int (round_half_even (x / ulp)) * ulp))"

text \<open>\<open>Math.floor(r * (i + 1))\<close> for a draw \<open>r\<close> of \<open>Math.random()\<close>, a double in \<open>[0, 1)\<close>.\<close>

definition random_index :: "rat \<Rightarrow> nat \<Rightarrow> nat" where
  "random_index r i = nat \<lfloor>to_double (r * of_nat (i + 1))\<rfloor>"

text \<open>The loop \<open>for (let i = shuffled.length - 1; i > 0; i--)\<close> on the array at address
  \<open>shuffled\<close>; \<open>d\<close> counts the draws made so far. (On an empty array the source starts at
  -1 and the model at 0: neither enters the loop.)\<close>

fun shuffle_loop :: "(nat \<Rightarrow> rat) \<Rightarrow> nat \<Rightarrow> nat \<Rightarrow> heap \<times> nat \<Rightarrow> heap \<times> nat" where
  "shuffle_loop rnd shuffled i (h, d) =
     (if i > 0 then
        (let j = random_index (rnd d) i
         in shuffle_loop rnd shuffled (i - 1) (h[shuffled := swap i j (h ! shuffled)], d + 1))
      else (h, d))"

declare shuffle_loop.simps [simp del]

text \<open>\<open>a.slice(0, count)\<close>: a negative \<open>count\<close> counts from the end.\<close>

definition slice0 :: "int list \<Rightarrow> int \<Rightarrow> int list" where
  "slice0 a cnt = (if 0 \<le> cnt then take (nat cnt) a else take (nat (int (length a) + cnt)) a)"

text \<open>\<open>getRandomCardIds(cardIds, count)\<close>: takes the address of the caller's array and
  returns the address of the result.\<close>

definition getRandomCardIds :: "(nat \<Rightarrow> rat) \<Rightarrow> nat \<Rightarrow> int \<Rightarrow> heap \<times> nat \<Rightarrow> nat \<times> heap \<times> nat" where
  "getRandomCardIds rnd cardIds cnt st =
     (let h = fst st; d = snd st in
      if cnt \<ge> int (length (h ! cardIds)) then (cardIds, h, d)
      else
        (let shuffled = length h;
             h1 = h @ [h ! cardIds];
             st2 = shuffle_loop rnd shuffled (length (h1 ! shuffled) - 1) (h1, d);
             h2 = fst st2
         in (length h2, h2 @ [slice0 (h2 ! shuffled) cnt], snd st2)))"

text \<open>The sampler as the dispatcher calls it: the identifier array it passes is the only
  array in reach.\<close>

definition sample :: "(nat \<Rightarrow> rat) \<Rightarrow> int list \<Rightarrow> int \<Rightarrow> sys \<Rightarrow> int list \<times> sys" where
  "sample rnd ids cnt s =
     (let r = getRandomCardIds rnd 0 cnt ([ids], draws s)
      in (fst (snd r) ! fst r, s\<lparr>draws := snd (snd r)\<rparr>))"

section \<open>Tagging\<close>

record server =
  ankiClient :: client
  math_random :: "nat \<Rightarrow> rat"
  clock :: "nat \<Rightarrow> date"

definition new_Date :: "(nat \<Rightarrow> date) \<Rightarrow> sys \<Rightarrow> date \<times> sys" where
  "new_Date clk s = (clk (clock_reads s), s\<lparr>clock_reads := clock_reads s + 1\<rparr>)"

definition digit :: "nat \<Rightarrow> char" where
  "digit n = char_of (48 + n)"

fun show_nat :: "nat \<Rightarrow> string" where
  "show_nat n = (if n < 10 then [digit n] else show_nat (n div 10) @ [digit (n mod 10)])"

declare show_nat.simps [simp del]

text \<open>\<open>s.padStart(2, '0')\<close>.\<close>

definition padStart2 :: "string \<Rightarrow> string" where
  "padStart2 s = replicate (2 - length s) (CHR ''0'') @ s"

definition yyyymmdd :: "date \<Rightarrow> string" where
  "yyyymmdd d = show_nat (fullYear d) @ padStart2 (show_nat (month0 d + 1)) @ padStart2 (show_nat (dayOfMonth d))"

text \<open>The default tag prefix, three Japanese characters, as the bytes of its UTF-8 form.\<close>

definition default_prefix :: string where
  "default_prefix = map char_of [232, 166, 139, 231, 155, 180, 227, 129, 151 :: nat]"

text \<open>\<open>generateReviewedTag(customPrefix)\<close>: the default stands in for \<open>undefined\<close> only.\<close>

definition generateReviewedTag :: "(nat \<Rightarrow> date) \<Rightarrow> string option \<Rightarrow> sys \<Rightarrow> string \<times> sys" where
  "generateReviewedTag clk customPrefix s =
     (let r = new_Date clk s
      in ((case customPrefix of None \<Rightarrow> default_prefix | Some p \<Rightarrow> p) @ ''_'' @ yyyymmdd (fst r), snd r))"

definition rethrow_tagging :: "js_error \<Rightarrow> sys \<Rightarrow> (js_error + val) \<times> sys" where
  "rethrow_tagging e s = (Inl e, console_error (ErrorAddingTags e) s)"

definition addTagsToCards ::
  "client \<Rightarrow> (nat \<Rightarrow> date) \<Rightarrow> json list \<Rightarrow> string option \<Rightarrow> sys \<Rightarrow> (js_error + val) \<times> sys" where
  "addTagsToCards cl clk cardIds customTagPrefix s =
     (if length cardIds = 0 then (Inr (VBool False), console_error NoCardsToTag s)
      else
        (case request cl ''cardsInfo'' [(''cards'', JArr cardIds)] 3 s of
           (Inl e, s1) \<Rightarrow> rethrow_tagging e s1
         | (Inr (VCards cs), s1) \<Rightarrow>
             (let noteIds = unique (map card_note cs) in
              if length noteIds = 0 then (Inr (VBool False), console_error NoNoteIdsFound s1)
              else
                (let t = generateReviewedTag clk customTagPrefix s1;
                     reviewedTag = fst t in
                 case request cl ''addTags''
                        [(''notes'', JArr (map JNum noteIds)), (''tags'', JStr reviewedTag)] 3 (snd t) of
                   (Inl e, s3) \<Rightarrow> rethrow_tagging e s3
                 | (Inr v, s3) \<Rightarrow>
                     (Inr v, console_error (TagAdded reviewedTag (length noteIds) (length cardIds)) s3)))
         | (Inr v, s1) \<Rightarrow> rethrow_tagging (shape_error v) s1))"

section \<open>Tool dispatcher\<close>

record card_view =
  cv_id :: int
  cv_noteId :: int
  cv_deck :: string
  cv_modelName :: string
  cv_fields :: "(string \<times> string) list"
  cv_tags :: "string list"
  cv_front :: string
  cv_back :: string
  cv_statistics :: statistics

text \<open>
  The \<open>text\<close> of a result: a literal, \<open>`Error: ${error.message}`\<close> for an error whose
  message the runtime or the protocol library words, or \<open>JSON.stringify\<close> of one of the
  three result objects.
\<close>

datatype payload =
    Text string
  | ErrorText js_error
  | IdsPayload string nat nat "int list"
  | CardsPayload string nat nat "card_view list"
  | TaggedPayload string "json list" string bool

record envelope =
  content :: payload
  isError :: bool

text \<open>\<open>request.params.arguments?.key\<close>.\<close>

definition arg :: "json option \<Rightarrow> string \<Rightarrow> json option" where
  "arg arguments k = (case arguments of Some (JObj kvs) \<Rightarrow> map_of kvs k | _ \<Rightarrow> None)"

definition falsy :: "json option \<Rightarrow> bool" where
  "falsy v = (case v of None \<Rightarrow> True | Some j \<Rightarrow> \<not> truthy j)"

definition isArray :: "json option \<Rightarrow> bool" where
  "isArray v = (case v of Some (JArr xs) \<Rightarrow> True | _ \<Rightarrow> False)"

definition items :: "json option \<Rightarrow> json list" where
  "items v = (case v of Some (JArr xs) \<Rightarrow> xs | _ \<Rightarrow> [])"

definition val_truthy :: "val \<Rightarrow> bool" where
  "val_truthy v = (case v of VNull \<Rightarrow> False | VBool b \<Rightarrow> b | VStr x \<Rightarrow> x \<noteq> [] | _ \<Rightarrow> True)"

definition view :: "card_info \<Rightarrow> card_view" where
  "view c = \<lparr>cv_id = ci_id c, cv_noteId = ci_noteId c, cv_deck = ci_deck c,
     cv_modelName = ci_modelName c, cv_fields = map (\<lambda>(k, f). (k, f_value f)) (ci_fields c),
     cv_tags = ci_tags c, cv_front = ci_front c, cv_back = ci_back c,
     cv_statistics = ci_statistics c\<rparr>"

definition handleGetLeechCards :: "server \<Rightarrow> json option \<Rightarrow> sys \<Rightarrow> (js_error + envelope) \<times> sys" where
  "handleGetLeechCards sv arguments s =
     (let detailed = (arg arguments ''detailed'' \<noteq> Some (JBool False));
          cnt = (case arg arguments ''count'' of Some (JNum n) \<Rightarrow> Some n | _ \<Rightarrow> None);
          sampling = (case cnt of Some n \<Rightarrow> n \<noteq> 0 | None \<Rightarrow> False) in
      case findLeechCards (ankiClient sv) s of
        (Inl e, s1) \<Rightarrow> (Inl e, s1)
      | (Inr (VIds allLeechCardIds), s1) \<Rightarrow>
          if length allLeechCardIds = 0 then
            (Inr \<lparr>content = Text ''No leech cards found in Anki.'', isError = False\<rparr>, s1)
          else
            (let r = (case cnt of
                        Some n \<Rightarrow> if n \<noteq> 0 then sample (math_random sv) allLeechCardIds n s1
                                  else (allLeechCardIds, s1)
                      | None \<Rightarrow> (allLeechCardIds, s1));
                 leechCardIds = fst r;
                 cardCountInfo =
                   (if sampling then
                      ''Returning '' @ show_nat (length leechCardIds) @ '' random cards out of ''
                        @ show_nat (length allLeechCardIds) @ '' total leech cards.''
                    else ''Returning all '' @ show_nat (length leechCardIds) @ '' leech cards.'') in
             if \<not> detailed then
               (Inr \<lparr>content = IdsPayload cardCountInfo (length leechCardIds)
                       (length allLeechCardIds) leechCardIds, isError = False\<rparr>, snd r)
             else
               (case getCardsInfo (ankiClient sv) leechCardIds (snd r) of
                  (Inl e, s3) \<Rightarrow> (Inl e, s3)
                | (Inr cardsInfo, s3) \<Rightarrow>
                    (Inr \<lparr>content = CardsPayload cardCountInfo (length cardsInfo)
                            (length allLeechCardIds) (map view cardsInfo), isError = False\<rparr>, s3)))
      | (Inr VNull, s1) \<Rightarrow> (Inl TypeError, s1)
      | (Inr v, s1) \<Rightarrow> (Inl IllTyped, s1))"

text \<open>The rest of \<open>handleTagReviewedCards\<close>, after validation, for a prefix that is a string
  or \<open>undefined\<close> (any other prefix is outside the typed model).\<close>

definition tag_cards :: "server \<Rightarrow> json list \<Rightarrow> string option \<Rightarrow> sys \<Rightarrow> (js_error + envelope) \<times> sys" where
  "tag_cards sv cardIds customTagPrefix s =
     (case addTagsToCards (ankiClient sv) (clock sv) cardIds customTagPrefix s of
        (Inl e, s1) \<Rightarrow> (Inl e, s1)
      | (Inr success, s1) \<Rightarrow>
          if val_truthy success then
            (let r = new_Date (clock sv) s1;
                 tagDate = yyyymmdd (fst r);
                 tagPrefix = (case customTagPrefix of None \<Rightarrow> default_prefix
                                | Some p \<Rightarrow> if p \<noteq> [] then p else default_prefix) in
             (Inr \<lparr>content = TaggedPayload
                      (''Successfully tagged '' @ show_nat (length cardIds) @ '' cards with '' @ [CHR 0x27]
                         @ tagPrefix @ ''_'' @ tagDate @ [CHR 0x27])
                      cardIds (tagPrefix @ ''_'' @ tagDate) True,
                    isError = False\<rparr>, snd r))
          else
            (Inr \<lparr>content = Text ''Failed to add tags to cards. Please check if the card IDs are valid.'',
                  isError = True\<rparr>, s1))"

definition handleTagReviewedCards :: "server \<Rightarrow> json option \<Rightarrow> sys \<Rightarrow> (js_error + envelope) \<times> sys" where
  "handleTagReviewedCards sv arguments s =
     (let cardIds = arg arguments ''card_ids'';
          customTagPrefix = arg arguments ''custom_tag_prefix'' in
      if falsy cardIds \<or> \<not> isArray cardIds \<or> length (items cardIds) = 0 then
        (Inr \<lparr>content = Text ''Error: No card IDs provided. Please provide an array of card IDs to tag.'',
              isError = True\<rparr>, s)
      else
        (case customTagPrefix of
           Some (JStr p) \<Rightarrow> tag_cards sv (items cardIds) (Some p) s
         | None \<Rightarrow> tag_cards sv (items cardIds) None s
         | Some j \<Rightarrow> (Inl IllTyped, s)))"


text \<open>The \<open>catch\<close> of the call handler: \<open>error.message\<close> of an \<open>Error\<close> instance, a fixed text
  otherwise.\<close>

definition error_envelope :: "js_error \<Rightarrow> envelope" where
  "error_envelope e =
     \<lparr>content = (case e of Error m \<Rightarrow> Text (''Error: '' @ m)
                   | NonError \<Rightarrow> Text ''Error: Unknown error occurred''
                   | _ \<Rightarrow> ErrorText e),
      isError = True\<rparr>"

text \<open>
  The handler of \<open>CallToolRequestSchema\<close>. The server builds its client with the defaults,
  so the global \<open>ANKI_MOCK_MODE\<close> is the client's \<open>mockMode\<close>.
\<close>

definition callTool :: "server \<Rightarrow> string \<Rightarrow> json option \<Rightarrow> sys \<Rightarrow> envelope \<times> sys" where
  "callTool sv name arguments s =
     (let a = isAvailable (ankiClient sv) s in
      if \<not> fst a \<and> \<not> mockMode (ankiClient sv) then
        (\<lparr>content = Text ''Could not connect to Anki. Please make sure Anki is running and AnkiConnect is installed.'',
          isError = True\<rparr>, snd a)
      else
        (case (if name = ''get_leech_cards'' then handleGetLeechCards sv arguments (snd a)
               else if name = ''tag_reviewed_cards'' then handleTagReviewedCards sv arguments (snd a)
               else (Inl (McpError (''Unknown tool: '' @ name)), snd a)) of
           (Inr env, s2) \<Rightarrow> (env, s2)
         | (Inl e, s2) \<Rightarrow> (error_envelope e, s2)))"

section \<open>Vocabulary of the properties\<close>

text \<open>The state after \<open>n\<close> more posts and the effects \<open>es\<close>.\<close>

definition after :: "sys \<Rightarrow> nat \<Rightarrow> event list \<Rightarrow> sys" where
  "after s n es = s\<lparr>posts := posts s + n, trace := trace s @ es\<rparr>"

definition is_reset :: "http_outcome \<Rightarrow> bool" where
  "is_reset out = (case out of AxiosFail code msg \<Rightarrow> code = Some ''ECONNRESET'' | _ \<Rightarrow> False)"

text \<open>The effects of the \<open>k\<close>-th failed attempt (counted from 0) and the wait that follows it.\<close>

definition retry_events :: "string \<Rightarrow> params \<Rightarrow> nat \<Rightarrow> event list" where
  "retry_events action ps k = [Post action ps, Log (ConnResetRetrying (3 - k)), Delay (500 * 2 ^ k)]"

fun waits :: "event list \<Rightarrow> rat list" where
  "waits [] = []"
| "waits (Delay ms # es) = ms # waits es"
| "waits (e # es) = waits es"

fun posted :: "event list \<Rightarrow> (string \<times> params) list" where
  "posted [] = []"
| "posted (Post action ps # es) = (action, ps) # posted es"
| "posted (e # es) = posted es"

fun missing_logged :: "event list \<Rightarrow> int list" where
  "missing_logged [] = []"
| "missing_logged (Log (NoteInfoNotFound n) # es) = n # missing_logged es"
| "missing_logged (e # es) = missing_logged es"

text \<open>The card-level records joined with their notes, those without a note left out.\<close>

definition joined :: "(int \<rightharpoonup> raw_note) \<Rightarrow> raw_card list \<Rightarrow> card_info list" where
  "joined m cs = List.map_filter (\<lambda>c. map_option (combine c) (m (card_note c))) cs"

text \<open>
  What the two bulk calls of \<open>getCardsInfo\<close> return, read off the same requests the function
  makes: the card-level records of \<open>cardsInfo\<close>, and the lookup table built from \<open>notesInfo\<close>.
  Both are empty when the call in question is not made or does not deliver its array.
\<close>

definition bulk_cards :: "client \<Rightarrow> int list \<Rightarrow> sys \<Rightarrow> raw_card list" where
  "bulk_cards cl cardIds s =
     (if cardIds = [] then []
      else (case request cl ''cardsInfo'' [(''cards'', JArr (map JNum cardIds))] 3 s of
              (Inr (VCards cs), s1) \<Rightarrow> cs
            | _ \<Rightarrow> []))"

definition note_lookup :: "client \<Rightarrow> int list \<Rightarrow> sys \<Rightarrow> (int \<rightharpoonup> raw_note)" where
  "note_lookup cl cardIds s =
     (if cardIds = [] then Map.empty
      else (case request cl ''cardsInfo'' [(''cards'', JArr (map JNum cardIds))] 3 s of
              (Inr (VCards cs), s1) \<Rightarrow>
                (case request cl ''notesInfo''
                        [(''notes'', JArr (map JNum (unique (map card_note cs))))] 3 s1 of
                   (Inr (VNotes ns), s2) \<Rightarrow> notes_map ns
                 | _ \<Rightarrow> Map.empty)
            | _ \<Rightarrow> Map.empty))"

text \<open>The state after the two lines the mock prints for a call.\<close>

definition mock_logged :: "string \<Rightarrow> params \<Rightarrow> sys \<Rightarrow> sys" where
  "mock_logged action ps s = s\<lparr>trace := trace s @ [Log (MockAction action), Log (MockParams ps)]\<rparr>"




text \<open>\<open>Math.random()\<close> answers a double in \<open>[0, 1)\<close>, the largest of which is \<open>1 - 2^-53\<close>.\<close>

definition unit_draws :: "(nat \<Rightarrow> rat) \<Rightarrow> bool" where
  "unit_draws rnd = (\<forall>k. 0 \<le> rnd k \<and> rnd k \<le> 1 - 1 / 2 ^ 53)"

text \<open>
  The Fisher-Yates shuffle as the specification words it: for the index \<open>i\<close> from the end
  down to 1, swap the element at \<open>i\<close> with the element at the index chosen in \<open>[0, i]\<close>;
  \<open>pick k i\<close> is the index chosen at the \<open>k\<close>-th step, counted from 0.
\<close>

definition fisher_yates :: "(nat \<Rightarrow> nat \<Rightarrow> nat) \<Rightarrow> int list \<Rightarrow> int list" where
  "fisher_yates pick xs =
     fold (\<lambda>k a. swap (length xs - 1 - k) (pick k (length xs - 1 - k)) a) [0..<length xs - 1] xs"

text \<open>The argument \<open>card_ids\<close> is missing, not an array, or an empty array.\<close>

definition no_card_ids :: "json option \<Rightarrow> bool" where
  "no_card_ids arguments = (case arg arguments ''card_ids'' of
       None \<Rightarrow> True
     | Some (JArr xs) \<Rightarrow> xs = []
     | Some j \<Rightarrow> True)"

subsection \<open>Concrete environments\<close>

definition sys0 :: sys where
  "sys0 = \<lparr>posts = 0, draws = 0, clock_reads = 0, trace = []\<rparr>"

text \<open>A transport that answers the \<open>k\<close>-th post with the \<open>k\<close>-th listed outcome, and with a
  default once the list is used up.\<close>

definition scripted :: "http_outcome list \<Rightarrow> http_outcome \<Rightarrow> nat \<Rightarrow> string \<Rightarrow> params \<Rightarrow> http_outcome" where
  "scripted outs dflt k action ps = (if k < length outs then outs ! k else dflt)"

definition real_client :: "http_outcome list \<Rightarrow> http_outcome \<Rightarrow> client" where
  "real_client outs dflt = \<lparr>mockMode = False, transport = scripted outs dflt\<rparr>"

definition mock_client :: client where
  "mock_client = \<lparr>mockMode = True, transport = scripted [] (OtherFail NonError)\<rparr>"

definition reset :: http_outcome where
  "reset = AxiosFail (Some ''ECONNRESET'') ''socket hang up''"

definition refused :: http_outcome where
  "refused = AxiosFail (Some ''ECONNREFUSED'') ''connect ECONNREFUSED 127.0.0.1:8765''"

text \<open>A collaborator that knows three cards and the notes of the first and the third.\<close>

definition lossy_client :: client where
  "lossy_client = real_client
     [Response None (VCards [mock_card 1, mock_card 2, mock_card 3]),
      Response None (VNotes [mock_note 1000001, mock_note 1000003])] refused"

definition lossy_s1 :: sys where
  "lossy_s1 = after sys0 1 [Post ''cardsInfo'' [(''cards'', JArr [JNum 1, JNum 2, JNum 3])], Delay 50]"

definition lossy_s2 :: sys where
  "lossy_s2 = after lossy_s1 1
     [Post ''notesInfo'' [(''notes'', JArr [JNum 1000001, JNum 1000002, JNum 1000003])], Delay 50]"

definition a_date :: date where
  "a_date = \<lparr>fullYear = 2025, month0 = 0, dayOfMonth = 7\<rparr>"

definition half :: "nat \<Rightarrow> rat" where
  "half k = 1 / 2"

text \<open>A random source whose second draw is the double written 0.3333333333333333 and whose
  other draws are 0.75.\<close>

definition dice :: "nat \<Rightarrow> rat" where
  "dice k = (if k = 1 then 6004799503160661 / 18014398509481984 else 3 / 4)"

definition real_server :: "http_outcome list \<Rightarrow> http_outcome \<Rightarrow> server" where
  "real_server outs dflt = \<lparr>ankiClient = real_client outs dflt, math_random = half, clock = (\<lambda>k. a_date)\<rparr>"

section \<open>Transport client: proofs\<close>

lemma after_0 [simp]: "after s 0 [] = s"
  by (simp add: after_def)

lemma after_after [simp]: "after (after s n es) m fs = after s (n + m) (es @ fs)"
  by (simp add: after_def)

lemma posts_after [simp]: "posts (after s n es) = posts s + n"
  by (simp add: after_def)

lemma trace_after [simp]: "trace (after s n es) = trace s @ es"
  by (simp add: after_def)

lemma request_reset_step:
  assumes "\<not> mockMode cl" and "is_reset (transport cl (posts s) action ps)" and "retries > 0"
  shows "request cl action ps retries s =
    request cl action ps (retries - 1)
      (after s 1 [Post action ps, Log (ConnResetRetrying retries), Delay (500 * pow2 (3 - int retries))])"
  using assms by (subst request.simps)
    (auto simp: is_reset_def emit_def after_def delay_def console_error_def split: http_outcome.splits)

lemma request_reset_exhausted:
  assumes "\<not> mockMode cl" and "is_reset (transport cl (posts s) action ps)"
  shows "request cl action ps 0 s =
    (Inl (Error ''Network error: ECONNRESET''), after s 1 [Post action ps])"
  using assms by (subst request.simps)
    (auto simp: is_reset_def emit_def after_def code_or_message_def split: http_outcome.splits)

lemma request_success:
  assumes "\<not> mockMode cl" and "transport cl (posts s) action ps = Response None res"
  shows "request cl action ps retries s = (Inr res, after s 1 [Post action ps, Delay 50])"
  using assms by (subst request.simps) (simp add: emit_def after_def delay_def error_set_def)

lemma request_refused:
  assumes "\<not> mockMode cl"
    and "transport cl (posts s) action ps = AxiosFail (Some ''ECONNREFUSED'') msg"
  shows "request cl action ps retries s =
    (Inl (Error ''Could not connect to Anki. Is Anki running with AnkiConnect installed?''),
     after s 1 [Post action ps])"
  using assms by (subst request.simps) (simp add: emit_def after_def)

lemma request_reset_prefix:
  assumes "\<not> mockMode cl" and "n \<le> 3" and "\<forall>k<n. is_reset (transport cl (posts s + k) action ps)"
  shows "request cl action ps 3 s =
    request cl action ps (3 - n) (after s n (concat (map (retry_events action ps) [0..<n])))"
  using assms(2,3)
proof (induction n)
  case 0
  then show ?case by simp
next
  case (Suc n)
  have "request cl action ps 3 s =
      request cl action ps (3 - n) (after s n (concat (map (retry_events action ps) [0..<n])))"
    using Suc by simp
  also have "\<dots> = request cl action ps (3 - n - 1)
      (after (after s n (concat (map (retry_events action ps) [0..<n]))) 1
        [Post action ps, Log (ConnResetRetrying (3 - n)), Delay (500 * pow2 (3 - int (3 - n)))])"
    using Suc.prems assms(1) by (intro request_reset_step) auto
  also have "pow2 (3 - int (3 - n)) = 2 ^ n"
    using Suc.prems by (simp add: pow2_def)
  finally show ?case by (simp add: retry_events_def)
qed

text \<open>
  C1. Outside mock mode, when the first \<open>n \<le> 3\<close> attempts of a call fail with a connection
  reset, \<open>request\<close> has made \<open>n\<close> retries, having waited 500ms, 1000ms, 2000ms before the
  first, second and third of them; an attempt that then succeeds ends the call with its
  result, and a fourth reset after three retries ends it with the connection-reset error.
\<close>

theorem request_reset_backoff:
  assumes "\<not> mockMode cl" and "n \<le> 3"
    and "\<forall>k<n. is_reset (transport cl (posts s + k) action ps)"
  shows "(transport cl (posts s + n) action ps = Response None res \<longrightarrow>
            request cl action ps 3 s =
              (Inr res, after s (n + 1)
                 (concat (map (retry_events action ps) [0..<n]) @ [Post action ps, Delay 50])))
       \<and> (n = 3 \<and> is_reset (transport cl (posts s + 3) action ps) \<longrightarrow>
            request cl action ps 3 s =
              (Inl (Error ''Network error: ECONNRESET''),
               after s 4 (concat (map (retry_events action ps) [0..<3]) @ [Post action ps])))"
proof (intro conjI impI)
  assume ok: "transport cl (posts s + n) action ps = Response None res"
  show "request cl action ps 3 s =
      (Inr res, after s (n + 1) (concat (map (retry_events action ps) [0..<n]) @ [Post action ps, Delay 50]))"
    using request_reset_prefix [OF assms] request_success [of cl "after s n _" action ps res] assms(1) ok
    by simp
next
  assume last: "n = 3 \<and> is_reset (transport cl (posts s + 3) action ps)"
  then show "request cl action ps 3 s =
      (Inl (Error ''Network error: ECONNRESET''),
       after s 4 (concat (map (retry_events action ps) [0..<3]) @ [Post action ps]))"
    using request_reset_prefix [OF assms] request_reset_exhausted [of cl "after s 3 _" action ps] assms(1)
    by simp
qed

theorem request_reset_backoff_witness:
  "request (real_client [] reset) ''version'' [] 3 sys0 =
     (Inl (Error ''Network error: ECONNRESET''),
      \<lparr>posts = 4, draws = 0, clock_reads = 0,
       trace = [Post ''version'' [], Log (ConnResetRetrying 3), Delay 500,
                Post ''version'' [], Log (ConnResetRetrying 2), Delay 1000,
                Post ''version'' [], Log (ConnResetRetrying 1), Delay 2000,
                Post ''version'' []]\<rparr>)
   \<and> request (real_client [reset, reset] (Response None (VStr ''6''))) ''version'' [] 3 sys0 =
     (Inr (VStr ''6''),
      \<lparr>posts = 3, draws = 0, clock_reads = 0,
       trace = [Post ''version'' [], Log (ConnResetRetrying 3), Delay 500,
                Post ''version'' [], Log (ConnResetRetrying 2), Delay 1000,
                Post ''version'' [], Delay 50]\<rparr>)"
  using request_reset_backoff [of "real_client [] reset" 3 sys0 "''version''" "[]" VNull]
    request_reset_backoff [of "real_client [reset, reset] (Response None (VStr ''6''))" 2 sys0
      "''version''" "[]" "VStr ''6''"]
  by (simp add: real_client_def scripted_def reset_def is_reset_def sys0_def after_def
      retry_events_def upt_rec numeral_2_eq_2 numeral_3_eq_3 less_Suc_eq)

text \<open>
  C2 as stated fails: a response whose error field is the empty string is not null, yet
  \<open>request\<close> returns its result.
\<close>

theorem request_empty_error_counterexample:
  "request (real_client [] (Response (Some []) (VStr ''6''))) ''version'' [] 3 sys0 =
     (Inr (VStr ''6''),
      \<lparr>posts = 1, draws = 0, clock_reads = 0, trace = [Post ''version'' [], Delay 50]\<rparr>)"
  by (simp add: request.simps real_client_def scripted_def sys0_def emit_def delay_def error_set_def)

text \<open>
  C2, amended. Outside mock mode, when the response carries an error field that is a
  non-empty string, \<open>request\<close> fails with \<open>AnkiConnect error:\<close> followed by that message,
  after this one post: no wait, no retry, whatever the retry budget.
\<close>

theorem request_remote_error:
  assumes "\<not> mockMode cl" and "transport cl (posts s) action ps = Response (Some m) res" and "m \<noteq> []"
  shows "request cl action ps retries s =
    (Inl (Error (''AnkiConnect error: '' @ m)), after s 1 [Post action ps])"
  using assms by (subst request.simps) (simp add: emit_def after_def error_set_def)

theorem request_remote_error_witness:
  "request (real_client [] (Response (Some ''deck was not found'') VNull)) ''findCards'' [] 3 sys0 =
     (Inl (Error ''AnkiConnect error: deck was not found''),
      \<lparr>posts = 1, draws = 0, clock_reads = 0, trace = [Post ''findCards'' []]\<rparr>)"
  using request_remote_error [of "real_client [] (Response (Some ''deck was not found'') VNull)" sys0
      "''findCards''" "[]" "''deck was not found''" VNull 3]
  by (simp add: real_client_def scripted_def sys0_def after_def)

text \<open>
  C3. Outside mock mode, when the post fails with \<open>ECONNREFUSED\<close>, \<open>request\<close> fails with the
  connection-refused error after this one post: no wait and no second post, whatever the
  retry budget.
\<close>

theorem request_connection_refused:
  assumes "\<not> mockMode cl"
    and "transport cl (posts s) action ps = AxiosFail (Some ''ECONNREFUSED'') msg"
  shows "request cl action ps retries s =
    (Inl (Error ''Could not connect to Anki. Is Anki running with AnkiConnect installed?''),
     after s 1 [Post action ps])"
  by (rule request_refused [OF assms])

theorem request_connection_refused_witness:
  "request (real_client [] refused) ''version'' [] 3 sys0 =
     (Inl (Error ''Could not connect to Anki. Is Anki running with AnkiConnect installed?''),
      \<lparr>posts = 1, draws = 0, clock_reads = 0, trace = [Post ''version'' []]\<rparr>)"
  using request_connection_refused [of "real_client [] refused" sys0 "''version''" "[]"
      "''connect ECONNREFUSED 127.0.0.1:8765''" 3]
  by (simp add: real_client_def scripted_def refused_def sys0_def after_def)

section \<open>Batch hydrator: proofs\<close>

lemma waits_append [simp]: "waits (es @ fs) = waits es @ waits fs"
  by (induction es rule: waits.induct) simp_all

lemma missing_logged_append [simp]: "missing_logged (es @ fs) = missing_logged es @ missing_logged fs"
  by (induction es rule: missing_logged.induct) simp_all

lemma joined_Nil [simp]: "joined m [] = []"
  by (simp add: joined_def map_filter_simps)

lemma joined_Cons:
  "joined m (c # cs) = (case m (card_note c) of None \<Rightarrow> [] | Some n \<Rightarrow> [combine c n]) @ joined m cs"
  by (simp add: joined_def map_filter_simps split: option.splits)

lemma joined_map_filter:
  "joined m cs = map (\<lambda>c. combine c (the (m (card_note c)))) (filter (\<lambda>c. card_note c \<in> dom m) cs)"
  by (induction cs) (auto simp: joined_Cons split: option.splits)

lemma fst_process_card:
  "fst (process_card m i batch c st) = fst st @ joined m [snd c]"
  by (simp add: process_card_def Let_def joined_Cons split: option.splits)

lemma trace_process_card:
  "trace (snd (process_card m i batch c st)) =
     trace (snd st) @ (if i > 0 \<or> indexOf batch c > 0 then [Delay 100] else [])
       @ (case m (card_note (snd c)) of None \<Rightarrow> [Log (NoteInfoNotFound (card_note (snd c)))] | Some n \<Rightarrow> [])"
  by (simp add: process_card_def Let_def delay_def console_error_def emit_def split: option.splits)

lemma fst_fold_process_card:
  "fst (fold (process_card m i batch) ys st) = fst st @ joined m (map snd ys)"
  by (induction ys arbitrary: st) (simp_all add: fst_process_card joined_Cons)


lemma missing_fold_process_card:
  "missing_logged (trace (snd (fold (process_card m i batch) ys st))) =
     missing_logged (trace (snd st)) @ map card_note (filter (\<lambda>c. card_note c \<notin> dom m) (map snd ys))"
  by (induction ys arbitrary: st) (auto simp: trace_process_card split: option.splits)


lemma joined_append: "joined m (xs @ ys) = joined m xs @ joined m ys"
  by (induction xs) (simp_all add: joined_Cons)

lemma drop_batch: "drop i cs = take BATCH_SIZE (drop i cs) @ drop (i + BATCH_SIZE) cs"
  by (metis add.commute append_take_drop_id drop_drop)

lemma batches_unfold:
  "i < length cs \<Longrightarrow>
   batches m cs i st =
     batches m cs (i + BATCH_SIZE)
       (if i + BATCH_SIZE < length cs
        then (fst (fold (process_card m i (take BATCH_SIZE (drop i cs))) (take BATCH_SIZE (drop i cs)) st),
              delay 500 (snd (fold (process_card m i (take BATCH_SIZE (drop i cs))) (take BATCH_SIZE (drop i cs)) st)))
        else fold (process_card m i (take BATCH_SIZE (drop i cs))) (take BATCH_SIZE (drop i cs)) st)"
  by (subst batches.simps) (simp add: Let_def)

lemma batches_done: "\<not> i < length cs \<Longrightarrow> batches m cs i st = st"
  by (subst batches.simps) simp

lemma fst_batches:
  "fst (batches m cs i st) = fst st @ joined m (map snd (drop i cs))"
proof (induction m cs i st rule: batches.induct)
  case (1 m cs i st)
  show ?case
  proof (cases "i < length cs")
    case True
    let ?batch = "take BATCH_SIZE (drop i cs)"
    let ?st1 = "fold (process_card m i ?batch) ?batch st"
    let ?st2 = "if i + BATCH_SIZE < length cs then (fst ?st1, delay 500 (snd ?st1)) else ?st1"
    have ih: "fst (batches m cs (i + BATCH_SIZE) ?st2) =
        fst ?st2 @ joined m (map snd (drop (i + BATCH_SIZE) cs))"
      by (rule 1 [OF True refl refl refl])
    have st2: "fst ?st2 = fst st @ joined m (map snd ?batch)"
      by (simp add: fst_fold_process_card)
    have "joined m (map snd (drop i cs)) =
        joined m (map snd ?batch) @ joined m (map snd (drop (i + BATCH_SIZE) cs))"
      by (subst drop_batch) (simp only: map_append joined_append)
    then show ?thesis
      by (simp only: batches_unfold [OF True] ih st2) simp
  next
    case False
    then show ?thesis by (simp add: batches_done)
  qed
qed

lemma missing_batches:
  "missing_logged (trace (snd (batches m cs i st))) =
     missing_logged (trace (snd st))
       @ map card_note (filter (\<lambda>c. card_note c \<notin> dom m) (map snd (drop i cs)))"
proof (induction m cs i st rule: batches.induct)
  case (1 m cs i st)
  show ?case
  proof (cases "i < length cs")
    case True
    let ?batch = "take BATCH_SIZE (drop i cs)"
    let ?st1 = "fold (process_card m i ?batch) ?batch st"
    let ?st2 = "if i + BATCH_SIZE < length cs then (fst ?st1, delay 500 (snd ?st1)) else ?st1"
    let ?miss = "\<lambda>xs. map card_note (filter (\<lambda>c. card_note c \<notin> dom m) (map snd xs))"
    have ih: "missing_logged (trace (snd (batches m cs (i + BATCH_SIZE) ?st2))) =
        missing_logged (trace (snd ?st2)) @ ?miss (drop (i + BATCH_SIZE) cs)"
      by (rule 1 [OF True refl refl refl])
    have st2: "missing_logged (trace (snd ?st2)) = missing_logged (trace (snd st)) @ ?miss ?batch"
      by (simp add: missing_fold_process_card delay_def emit_def)
    have "?miss (drop i cs) = ?miss ?batch @ ?miss (drop (i + BATCH_SIZE) cs)"
      by (subst drop_batch) (simp only: map_append filter_append)
    then show ?thesis
      by (simp only: batches_unfold [OF True] ih st2) simp
  next
    case False
    then show ?thesis by (simp add: batches_done)
  qed
qed



lemma distinct_fresh_objects [simp]: "distinct (map fst (fresh_objects xs))"
  by (simp add: fresh_objects_def)

lemma snd_fresh_objects [simp]: "map snd (fresh_objects xs) = xs"
  by (simp add: fresh_objects_def)

lemma length_fresh_objects [simp]: "length (fresh_objects xs) = length xs"
  by (simp add: fresh_objects_def)

lemma getCardsInfo_success:
  assumes "cardIds \<noteq> []"
    and "request cl ''cardsInfo'' [(''cards'', JArr (map JNum cardIds))] 3 s = (Inr (VCards cs), s1)"
    and "request cl ''notesInfo'' [(''notes'', JArr (map JNum (unique (map card_note cs))))] 3 s1
           = (Inr (VNotes ns), s2)"
  shows "getCardsInfo cl cardIds s =
    (Inr (fst (batches (notes_map ns) (fresh_objects cs) 0 ([], s2))),
     snd (batches (notes_map ns) (fresh_objects cs) 0 ([], s2)))"
  using assms by (simp add: getCardsInfo_def Let_def)

lemma getCardsInfo_Inr:
  assumes "fst (getCardsInfo cl cardIds s) = Inr cards"
  shows "cards = joined (note_lookup cl cardIds s) (bulk_cards cl cardIds s)"
proof (cases "cardIds = []")
  case True
  with assms show ?thesis by (simp add: getCardsInfo_def bulk_cards_def)
next
  case False
  with assms show ?thesis
    by (auto simp: getCardsInfo_def bulk_cards_def note_lookup_def Let_def fst_batches
        split: prod.splits sum.splits val.splits)
qed


subsection \<open>Mock mode\<close>

lemma nums_JNum [simp]: "nums (map JNum ids) = Some ids"
  by (induction ids) simp_all

lemma request_mock: "mockMode cl \<Longrightarrow> request cl action ps retries s = getMockResponse action ps s"
  by (subst request.simps) simp

lemma mock_cardsInfo:
  "request mock_client ''cardsInfo'' [(''cards'', JArr (map JNum ids))] 3 s =
     (Inr (VCards (map mock_card ids)), mock_logged ''cardsInfo'' [(''cards'', JArr (map JNum ids))] s)"
  by (simp add: request_mock mock_client_def getMockResponse_def Let_def get_prop_def or_empty_def
      map_ids_def console_error_def emit_def mock_logged_def)

lemma mock_notesInfo:
  "request mock_client ''notesInfo'' [(''notes'', JArr (map JNum ids))] 3 s =
     (Inr (VNotes (map mock_note ids)), mock_logged ''notesInfo'' [(''notes'', JArr (map JNum ids))] s)"
  by (simp add: request_mock mock_client_def getMockResponse_def Let_def get_prop_def or_empty_def
      map_ids_def console_error_def emit_def mock_logged_def)

lemma set_fold_unique:
  "set (fold (\<lambda>x seen. if x \<in> set seen then seen else seen @ [x]) xs acc) = set acc \<union> set xs"
  by (induction xs arbitrary: acc) auto

lemma set_unique [simp]: "set (unique xs) = set xs"
  by (simp add: unique_def set_fold_unique)

lemma fold_mock_notes:
  "fold (\<lambda>noteInfo m. m(noteId noteInfo \<mapsto> noteInfo)) (map mock_note ks) m0 k =
     (if k \<in> set ks then Some (mock_note k) else m0 k)"
  by (induction ks arbitrary: m0) (auto simp: mock_note_def)

lemma notes_map_mock: "notes_map (map mock_note ks) k = (if k \<in> set ks then Some (mock_note k) else None)"
  by (simp add: notes_map_def fold_mock_notes)

lemma joined_mock:
  "set (map card_note (map mock_card ids)) \<subseteq> set ks \<Longrightarrow>
   joined (notes_map (map mock_note ks)) (map mock_card ids) =
     map (\<lambda>i. combine (mock_card i) (mock_note (i + 1000000))) ids"
  by (induction ids) (auto simp: joined_Cons notes_map_mock mock_card_def)

lemma getCardsInfo_mock:
  "fst (getCardsInfo mock_client cardIds s) =
     Inr (map (\<lambda>i. combine (mock_card i) (mock_note (i + 1000000))) cardIds)"
proof (cases "cardIds = []")
  case True
  then show ?thesis by (simp add: getCardsInfo_def)
next
  case False
  show ?thesis
    by (simp add: getCardsInfo_success [OF False mock_cardsInfo mock_notesInfo] fst_batches joined_mock)
qed


lemma ease_combine: "ease (ci_statistics (combine c n)) = of_int (factor c) / 1000"
  by (simp add: combine_def)

lemma ci_id_combine: "ci_id (combine c n) = cardId c"
  by (simp add: combine_def)




lemma lossy_cardsInfo:
  "request lossy_client ''cardsInfo'' [(''cards'', JArr (map JNum [1, 2, 3]))] 3 sys0 =
     (Inr (VCards [mock_card 1, mock_card 2, mock_card 3]), lossy_s1)"
  by (simp add: request_success lossy_client_def real_client_def scripted_def sys0_def lossy_s1_def)

lemma unique_lossy: "unique (map card_note [mock_card 1, mock_card 2, mock_card 3]) = [1000001, 1000002, 1000003]"
  by (simp add: unique_def mock_card_def)

lemma lossy_notesInfo:
  "request lossy_client ''notesInfo''
     [(''notes'', JArr (map JNum (unique (map card_note [mock_card 1, mock_card 2, mock_card 3]))))] 3 lossy_s1 =
     (Inr (VNotes [mock_note 1000001, mock_note 1000003]), lossy_s2)"
  by (simp only: unique_lossy)
    (simp add: request_success lossy_client_def real_client_def scripted_def sys0_def
      lossy_s1_def lossy_s2_def)

lemma dom_lossy: "dom (notes_map [mock_note 1000001, mock_note 1000003]) = {1000001, 1000003}"
  by (auto simp: notes_map_def mock_note_def)

lemma lossy_result:
  "fst (getCardsInfo lossy_client [1, 2, 3] sys0) =
     Inr [combine (mock_card 1) (mock_note 1000001), combine (mock_card 3) (mock_note 1000003)]"
  by (simp add: getCardsInfo_success [OF _ lossy_cardsInfo lossy_notesInfo] fst_batches joined_Cons
      notes_map_def mock_card_def mock_note_def)

lemma lossy_bulk: "bulk_cards lossy_client [1, 2, 3] sys0 = [mock_card 1, mock_card 2, mock_card 3]"
  using lossy_cardsInfo by (simp add: bulk_cards_def)

text \<open>
  C4. When both bulk calls of a hydration of a non-empty identifier list deliver their
  arrays, \<open>getCardsInfo\<close> succeeds whatever notes are missing from the lookup table: the
  cards it returns are, in order, those whose note is in the table, and for each of the
  others it logs "Note info not found" with the note identifier and goes on.
\<close>

theorem getCardsInfo_skips_missing_notes:
  assumes "cardIds \<noteq> []"
    and "request cl ''cardsInfo'' [(''cards'', JArr (map JNum cardIds))] 3 s = (Inr (VCards cs), s1)"
    and "request cl ''notesInfo'' [(''notes'', JArr (map JNum (unique (map card_note cs))))] 3 s1
           = (Inr (VNotes ns), s2)"
  shows "\<exists>cards s'. getCardsInfo cl cardIds s = (Inr cards, s')
     \<and> map ci_id cards = map cardId (filter (\<lambda>c. card_note c \<in> dom (notes_map ns)) cs)
     \<and> missing_logged (trace s') =
         missing_logged (trace s2) @ map card_note (filter (\<lambda>c. card_note c \<notin> dom (notes_map ns)) cs)"
proof -
  let ?st = "batches (notes_map ns) (fresh_objects cs) 0 ([], s2)"
  have "getCardsInfo cl cardIds s = (Inr (fst ?st), snd ?st)"
    by (rule getCardsInfo_success [OF assms])
  moreover have "map ci_id (fst ?st) = map cardId (filter (\<lambda>c. card_note c \<in> dom (notes_map ns)) cs)"
    by (simp add: fst_batches joined_map_filter ci_id_combine comp_def)
  moreover have "missing_logged (trace (snd ?st)) =
      missing_logged (trace s2) @ map card_note (filter (\<lambda>c. card_note c \<notin> dom (notes_map ns)) cs)"
    by (simp add: missing_batches)
  ultimately show ?thesis by blast
qed

theorem getCardsInfo_skips_missing_notes_witness:
  "\<exists>cards s'. getCardsInfo lossy_client [1, 2, 3] sys0 = (Inr cards, s')
     \<and> map ci_id cards = [1, 3]
     \<and> missing_logged (trace s') = [1000002]"
  using getCardsInfo_skips_missing_notes [OF _ lossy_cardsInfo lossy_notesInfo]
  by (simp add: dom_lossy mock_card_def lossy_s2_def lossy_s1_def sys0_def)




text \<open>
  C6. The \<open>ease\<close> of every card \<open>getCardsInfo\<close> returns is the \<open>factor\<close> of the card-level
  record it was built from, divided by 1000: position by position, over the records of the
  bulk \<open>cardsInfo\<close> call whose note is in the lookup table. In mock mode, where every factor
  is 2500, hydration returns one card per identifier and every \<open>ease\<close> is 2.5.
\<close>

theorem ease_is_factor_over_1000:
  "(fst (getCardsInfo cl cardIds s) = Inr cards \<longrightarrow>
      map (\<lambda>c. ease (ci_statistics c)) cards =
        map (\<lambda>c. of_int (factor c) / 1000)
          (filter (\<lambda>c. card_note c \<in> dom (note_lookup cl cardIds s)) (bulk_cards cl cardIds s)))
   \<and> (\<exists>mocked. fst (getCardsInfo mock_client cardIds s) = Inr mocked
        \<and> length mocked = length cardIds
        \<and> (\<forall>c\<in>set mocked. ease (ci_statistics c) = 5 / 2))"
proof (intro conjI impI)
  assume "fst (getCardsInfo cl cardIds s) = Inr cards"
  then have "cards = joined (note_lookup cl cardIds s) (bulk_cards cl cardIds s)"
    by (rule getCardsInfo_Inr)
  then show "map (\<lambda>c. ease (ci_statistics c)) cards =
      map (\<lambda>c. of_int (factor c) / 1000)
        (filter (\<lambda>c. card_note c \<in> dom (note_lookup cl cardIds s)) (bulk_cards cl cardIds s))"
    by (simp add: joined_map_filter ease_combine comp_def)
next
  show "\<exists>mocked. fst (getCardsInfo mock_client cardIds s) = Inr mocked
        \<and> length mocked = length cardIds
        \<and> (\<forall>c\<in>set mocked. ease (ci_statistics c) = 5 / 2)"
    by (auto simp: getCardsInfo_mock ease_combine mock_card_def)
qed

theorem ease_is_factor_over_1000_witness:
  "fst (getCardsInfo lossy_client [1, 2, 3] sys0) =
     Inr [combine (mock_card 1) (mock_note 1000001), combine (mock_card 3) (mock_note 1000003)]
   \<and> map (\<lambda>c. ease (ci_statistics c))
        [combine (mock_card 1) (mock_note 1000001), combine (mock_card 3) (mock_note 1000003)] = [5 / 2, 5 / 2]
   \<and> (\<exists>mocked. fst (getCardsInfo mock_client [1234567890, 1234567891, 1234567892] sys0) = Inr mocked
        \<and> length mocked = 3 \<and> (\<forall>c\<in>set mocked. ease (ci_statistics c) = 5 / 2))"
  using lossy_result
    ease_is_factor_over_1000 [of lossy_client "[1, 2, 3]" sys0
      "[combine (mock_card 1) (mock_note 1000001), combine (mock_card 3) (mock_note 1000003)]"]
    ease_is_factor_over_1000 [of lossy_client "[1234567890, 1234567891, 1234567892]" sys0 "[]"]
  by (simp add: ease_combine mock_card_def numeral_3_eq_3)

text \<open>
  C10. Whatever \<open>getCardsInfo\<close> returns is the sequence of card-level records of the bulk
  \<open>cardsInfo\<close> call, in that order, with the records whose note is not in the lookup table
  removed and every other record joined with its note: nothing is reordered, repeated or
  inserted. (For an empty identifier list no call is made and the result is empty.)
\<close>

theorem getCardsInfo_order_preserving:
  assumes "fst (getCardsInfo cl cardIds s) = Inr cards"
  shows "cards = map (\<lambda>c. combine c (the (note_lookup cl cardIds s (card_note c))))
                   (filter (\<lambda>c. card_note c \<in> dom (note_lookup cl cardIds s)) (bulk_cards cl cardIds s))"
  using getCardsInfo_Inr [OF assms] by (simp add: joined_map_filter)

theorem getCardsInfo_order_preserving_witness:
  "fst (getCardsInfo lossy_client [1, 2, 3] sys0) =
     Inr [combine (mock_card 1) (mock_note 1000001), combine (mock_card 3) (mock_note 1000003)]
   \<and> bulk_cards lossy_client [1, 2, 3] sys0 = [mock_card 1, mock_card 2, mock_card 3]
   \<and> [combine (mock_card 1) (mock_note 1000001), combine (mock_card 3) (mock_note 1000003)] =
       map (\<lambda>c. combine c (the (note_lookup lossy_client [1, 2, 3] sys0 (card_note c))))
         (filter (\<lambda>c. card_note c \<in> dom (note_lookup lossy_client [1, 2, 3] sys0))
            [mock_card 1, mock_card 2, mock_card 3])"
  using lossy_result lossy_bulk getCardsInfo_order_preserving [OF lossy_result]
  by simp

section \<open>Sampler: proofs\<close>

lemma pow2_pos [simp]: "0 < pow2 k"
  by (simp add: pow2_def)

lemma pow2_add1: "pow2 (k + 1) = 2 * pow2 k"
proof (cases "0 \<le> k")
  case True
  then show ?thesis by (simp add: pow2_def nat_add_distrib)
next
  case False
  then have "nat (- k) = Suc (nat (- (k + 1)))" by simp
  with False show ?thesis by (simp add: pow2_def)
qed

lemma pow2_sub1: "pow2 (k - 1) = pow2 k / 2"
  using pow2_add1 [of "k - 1"] by simp

lemma pow2_nonzero [simp]: "pow2 k \<noteq> 0"
  by (simp add: pow2_def)

lemma pow2_sub: "pow2 (k - int n) = pow2 k / 2 ^ n"
proof (induction n)
  case 0
  then show ?case by simp
next
  case (Suc n)
  have "k - int (Suc n) = (k - int n) - 1" by simp
  then show ?case by (simp only: pow2_sub1 Suc) simp
qed

lemma ilog2_up_bounds: "1 \<le> x \<Longrightarrow> pow2 (ilog2_up x) \<le> x \<and> x < pow2 (ilog2_up x + 1)"
proof (induction x rule: ilog2_up.induct)
  case (1 x)
  show ?case
  proof (cases "x < 2")
    case True
    then have "ilog2_up x = 0" by (subst ilog2_up.simps) simp
    with True 1 show ?thesis by (simp add: pow2_def)
  next
    case False
    then have e: "ilog2_up x = ilog2_up (x / 2) + 1" by (subst ilog2_up.simps) simp
    have "pow2 (ilog2_up (x / 2)) \<le> x / 2 \<and> x / 2 < pow2 (ilog2_up (x / 2) + 1)"
      using False by (intro 1) simp_all
    then show ?thesis
      by (simp only: e pow2_add1) simp
  qed
qed

lemma ilog2_down_bounds:
  "0 < x \<Longrightarrow> x < 2 \<Longrightarrow> pow2 (ilog2_down x) \<le> x \<and> x < pow2 (ilog2_down x + 1)"
proof (induction x rule: ilog2_down.induct)
  case (1 x)
  show ?case
  proof (cases "1 \<le> x")
    case True
    then have "ilog2_down x = 0" by (subst ilog2_down.simps) simp
    with True 1 show ?thesis by (simp add: pow2_def)
  next
    case False
    then have e: "ilog2_down x = ilog2_down (2 * x) - 1"
      using "1.prems" by (subst ilog2_down.simps) simp
    have "pow2 (ilog2_down (2 * x)) \<le> 2 * x \<and> 2 * x < pow2 (ilog2_down (2 * x) + 1)"
      using False "1.prems" by (intro 1) simp_all
    then show ?thesis
      by (simp only: e pow2_add1 pow2_sub1) simp
  qed
qed

lemma ilog2_bounds: "0 < x \<Longrightarrow> pow2 (ilog2 x) \<le> x \<and> x < pow2 (ilog2 x + 1)"
  using ilog2_up_bounds [of x] ilog2_down_bounds [of x] by (simp add: ilog2_def)

lemma round_half_even_le: "of_int (round_half_even q) \<le> q + 1 / 2"
  by (simp add: round_half_even_def Let_def) linarith

lemma to_double_le:
  assumes "0 < x"
  shows "to_double x \<le> x + x * (1 / 2 ^ 53)"
proof -
  define u where "u = pow2 (ilog2 \<bar>x\<bar> - 52)"
  have u_pos: "0 < u" by (simp add: u_def)
  have u: "u = pow2 (ilog2 x) / 2 ^ 52"
    using assms pow2_sub [of "ilog2 x" 52] by (simp add: u_def)
  have "of_int (round_half_even (x / u)) * u \<le> (x / u + 1 / 2) * u"
    using u_pos by (intro mult_right_mono round_half_even_le) simp
  also have "\<dots> = x + u / 2"
    using u_pos by (simp add: algebra_simps)
  also have "u / 2 = pow2 (ilog2 x) * (1 / 2 ^ 53)"
    by (simp add: u)
  also have "\<dots> \<le> x * (1 / 2 ^ 53)"
    using ilog2_bounds [OF assms] by (intro mult_right_mono) simp_all
  finally show ?thesis
    using assms by (simp add: to_double_def Let_def u_def)
qed

lemma random_index_le:
  assumes "0 \<le> r" and "r \<le> 1 - 1 / 2 ^ 53"
  shows "random_index r i \<le> i"
proof (cases "r = 0")
  case True
  then show ?thesis by (simp add: random_index_def to_double_def)
next
  case False
  define c :: rat where "c = 1 / 2 ^ 53"
  define n :: rat where "n = of_nat (i + 1)"
  have c: "0 < c" and n: "0 < n" by (simp_all add: c_def n_def)
  have x: "0 < r * n" using assms(1) False n by simp
  have "to_double (r * n) \<le> r * n * (1 + c)"
    using to_double_le [OF x] by (simp add: c_def algebra_simps)
  also have "\<dots> \<le> (1 - c) * n * (1 + c)"
    using assms(2) c n by (intro mult_right_mono) (simp_all add: c_def)
  also have "\<dots> = n - c * c * n"
    by (simp add: algebra_simps)
  also have "\<dots> < n"
    using c n by simp
  finally have "to_double (r * n) < of_int (int (i + 1))" by (simp add: n_def)
  then have "\<lfloor>to_double (r * n)\<rfloor> < int (i + 1)" by (simp only: floor_less_iff)
  then show ?thesis by (simp add: random_index_def n_def)
qed

lemma unit_draws_index: "unit_draws rnd \<Longrightarrow> random_index (rnd d) i \<le> i"
  by (simp add: unit_draws_def random_index_le)

lemma mset_swap_list: "i < length a \<Longrightarrow> j < length a \<Longrightarrow> mset (swap i j a) = mset a"
  by (simp add: swap_def mset_swap)

lemma length_swap [simp]: "length (swap i j a) = length a"
  by (simp add: swap_def)

lemma shuffle_loop_unfold:
  "0 < i \<Longrightarrow> shuffle_loop rnd shuffled i (h, d) =
     shuffle_loop rnd shuffled (i - 1)
       (h[shuffled := swap i (random_index (rnd d) i) (h ! shuffled)], d + 1)"
  by (subst shuffle_loop.simps) (simp add: Let_def)

lemma shuffle_loop_done: "shuffle_loop rnd shuffled 0 (h, d) = (h, d)"
  by (subst shuffle_loop.simps) simp

lemma shuffle_loop_fold:
  "shuffled < length h \<Longrightarrow>
   shuffle_loop rnd shuffled i (h, d) =
     (h[shuffled := fold (\<lambda>k a. swap (i - k) (random_index (rnd (d + k)) (i - k)) a) [0..<i]
                      (h ! shuffled)],
      d + i)"
proof (induction i arbitrary: h d)
  case 0
  then show ?case by (simp add: shuffle_loop_done)
next
  case (Suc i)
  let ?h = "h[shuffled := swap (Suc i) (random_index (rnd d) (Suc i)) (h ! shuffled)]"
  have upt: "[0..<Suc i] = 0 # map Suc [0..<i]"
    by (simp only: map_Suc_upt upt_conv_Cons [of 0 "Suc i"])
  have "shuffle_loop rnd shuffled (Suc i) (h, d) = shuffle_loop rnd shuffled i (?h, d + 1)"
    using shuffle_loop_unfold [of "Suc i" rnd shuffled h d] by simp
  also have "\<dots> =
      (?h[shuffled := fold (\<lambda>k a. swap (i - k) (random_index (rnd (d + 1 + k)) (i - k)) a) [0..<i]
                        (?h ! shuffled)],
       d + 1 + i)"
    using Suc.prems by (intro Suc.IH) simp
  finally show ?case
    using Suc.prems by (simp only: upt) (simp add: fold_map comp_def)
qed

lemma shuffle_loop_inv:
  "unit_draws rnd \<Longrightarrow> shuffled < length h \<Longrightarrow> i < length (h ! shuffled) \<Longrightarrow>
    case shuffle_loop rnd shuffled i (h, d) of (h', d') \<Rightarrow>
       length h' = length h \<and> mset (h' ! shuffled) = mset (h ! shuffled)
       \<and> (\<forall>b. b \<noteq> shuffled \<longrightarrow> h' ! b = h ! b) \<and> d' = d + i"
proof (induction i arbitrary: h d)
  case 0
  then show ?case by (simp add: shuffle_loop_done)
next
  case (Suc i)
  let ?j = "random_index (rnd d) (Suc i)"
  let ?h = "h[shuffled := swap (Suc i) ?j (h ! shuffled)]"
  have j: "?j < length (h ! shuffled)"
    using unit_draws_index [OF Suc.prems(1), of d "Suc i"] Suc.prems(3) by simp
  have ih: "case shuffle_loop rnd shuffled i (?h, d + 1) of (h', d') \<Rightarrow>
       length h' = length ?h \<and> mset (h' ! shuffled) = mset (?h ! shuffled)
       \<and> (\<forall>b. b \<noteq> shuffled \<longrightarrow> h' ! b = ?h ! b) \<and> d' = d + 1 + i"
    using Suc.prems by (intro Suc.IH) simp_all
  have unf: "shuffle_loop rnd shuffled (Suc i) (h, d) = shuffle_loop rnd shuffled i (?h, d + 1)"
    using shuffle_loop_unfold [of "Suc i" rnd shuffled h d] by simp
  show ?case
    using ih Suc.prems j by (simp add: unf mset_swap_list split: prod.splits)
qed

lemma getRandomCardIds_shuffle:
  assumes "cardIds < length h" and "cnt < int (length (h ! cardIds))"
  shows "getRandomCardIds rnd cardIds cnt (h, d) =
    (Suc (length h),
     h @ [fisher_yates (\<lambda>k i. random_index (rnd (d + k)) i) (h ! cardIds),
          slice0 (fisher_yates (\<lambda>k i. random_index (rnd (d + k)) i) (h ! cardIds)) cnt],
     d + (length (h ! cardIds) - 1))"
proof -
  let ?ids = "h ! cardIds"
  have loop: "shuffle_loop rnd (length h) (length ?ids - 1) (h @ [?ids], d) =
      (h @ [fisher_yates (\<lambda>k i. random_index (rnd (d + k)) i) ?ids], d + (length ?ids - 1))"
    using shuffle_loop_fold [of "length h" "h @ [?ids]" rnd "length ?ids - 1" d]
    by (simp add: fisher_yates_def)
  show ?thesis
    using assms(2) loop by (simp add: getRandomCardIds_def Let_def)
qed

lemma mset_fisher_yates:
  assumes "unit_draws rnd"
  shows "mset (fisher_yates (\<lambda>k i. random_index (rnd (d + k)) i) xs) = mset xs"
proof (cases "xs = []")
  case True
  then show ?thesis by (simp add: fisher_yates_def)
next
  case False
  then have len: "length xs - 1 < length ([xs] ! 0)" by simp
  have "shuffle_loop rnd 0 (length xs - 1) ([xs], d) =
      ([fisher_yates (\<lambda>k i. random_index (rnd (d + k)) i) xs], d + (length xs - 1))"
    using shuffle_loop_fold [of 0 "[xs]" rnd "length xs - 1" d] by (simp add: fisher_yates_def)
  then show ?thesis
    using shuffle_loop_inv [OF assms _ len, of d] by simp
qed

text \<open>
  C8. Whenever \<open>count\<close> is at least the length of the identifier array, \<open>getRandomCardIds\<close>
  returns the caller's own array: the same address, on an unchanged heap, so its elements
  and their order are as they were, and no random number has been drawn.
\<close>

theorem getRandomCardIds_all:
  assumes "cnt \<ge> int (length (h ! cardIds))"
  shows "getRandomCardIds rnd cardIds cnt (h, d) = (cardIds, h, d)"
  using assms by (simp add: getRandomCardIds_def)

theorem getRandomCardIds_all_witness:
  "getRandomCardIds half 0 4 ([[10, 20, 30, 40]], 0) = (0, [[10, 20, 30, 40]], 0)
   \<and> getRandomCardIds half 0 7 ([[10, 20, 30, 40]], 0) = (0, [[10, 20, 30, 40]], 0)"
  using getRandomCardIds_all [of "[[10, 20, 30, 40]]" 0 4 half 0]
    getRandomCardIds_all [of "[[10, 20, 30, 40]]" 0 7 half 0]
  by simp

text \<open>
  C9. For an array of pairwise distinct identifiers and \<open>0 < count < length\<close>, with the
  random source answering doubles in \<open>[0, 1)\<close>, \<open>getRandomCardIds\<close> allocates two arrays and
  touches no other: a copy of the input shuffled by Fisher-Yates, and the result, the
  first \<open>count\<close> elements of that copy. The shuffle goes from the last index down to 1 and
  swaps the element at \<open>i\<close> with the element at \<open>Math.floor(r * (i + 1))\<close>, an index in
  \<open>[0, i]\<close>, where \<open>r\<close> is the next draw of the random source; it makes \<open>length - 1\<close> draws.
  The shuffled copy is a permutation of the input, so the result has exactly \<open>count\<close>
  elements, none twice, all from the input; the caller's array is as it was.
\<close>

theorem getRandomCardIds_sample:
  assumes "unit_draws rnd" and "cardIds < length h" and "distinct (h ! cardIds)"
    and "0 < cnt" and "cnt < int (length (h ! cardIds))"
  shows "case getRandomCardIds rnd cardIds cnt (h, d) of (res, h', d') \<Rightarrow>
      res = Suc (length h)
      \<and> h' = h @ [fisher_yates (\<lambda>k i. random_index (rnd (d + k)) i) (h ! cardIds),
                  take (nat cnt) (fisher_yates (\<lambda>k i. random_index (rnd (d + k)) i) (h ! cardIds))]
      \<and> d' = d + (length (h ! cardIds) - 1)
      \<and> (\<forall>k i. random_index (rnd k) i \<le> i)
      \<and> length h' = length h + 2
      \<and> take (length h) h' = h \<and> h' ! cardIds = h ! cardIds
      \<and> mset (h' ! length h) = mset (h ! cardIds)
      \<and> h' ! res = take (nat cnt) (h' ! length h)
      \<and> length (h' ! res) = nat cnt \<and> distinct (h' ! res) \<and> set (h' ! res) \<subseteq> set (h ! cardIds)"
proof -
  define sh where "sh = fisher_yates (\<lambda>k i. random_index (rnd (d + k)) i) (h ! cardIds)"
  have r: "getRandomCardIds rnd cardIds cnt (h, d) =
      (Suc (length h), h @ [sh, take (nat cnt) sh], d + (length (h ! cardIds) - 1))"
    using getRandomCardIds_shuffle [OF assms(2,5), of rnd d] assms(4) by (simp add: sh_def slice0_def)
  have perm: "mset sh = mset (h ! cardIds)"
    unfolding sh_def by (rule mset_fisher_yates [OF assms(1)])
  have len: "length sh = length (h ! cardIds)"
    using perm by (metis size_mset)
  have dist: "distinct sh"
    using perm assms(3) by (metis mset_eq_imp_distinct_iff)
  have sub: "set (take (nat cnt) sh) \<subseteq> set (h ! cardIds)"
    using perm by (metis set_take_subset mset_eq_setD)
  have idx: "\<forall>k i. random_index (rnd k) i \<le> i"
    using unit_draws_index [OF assms(1)] by simp
  show ?thesis
    using perm len dist sub idx assms(2,4,5)
    by (simp add: r nth_append flip: sh_def)
qed

theorem getRandomCardIds_sample_witness:
  "unit_draws dice
   \<and> getRandomCardIds dice 0 2 ([[10, 20, 30, 40]], 0) = (2, [[10, 20, 30, 40], [10, 30, 20, 40], [10, 30]], 3)
   \<and> fisher_yates (\<lambda>k i. random_index (dice k) i) [10, 20, 30, 40] = [10, 30, 20, 40]
   \<and> random_index (dice 1) 2 = 1
   \<and> (case getRandomCardIds dice 0 2 ([[10, 20, 30, 40]], 0) of (res, h', d') \<Rightarrow>
        res = 2 \<and> d' = 3 \<and> length h' = 3 \<and> take 1 h' = [[10, 20, 30, 40]] \<and> h' ! 0 = [10, 20, 30, 40]
        \<and> mset (h' ! 1) = mset [10, 20, 30, 40]
        \<and> h' ! res = take 2 (h' ! 1)
        \<and> length (h' ! res) = 2 \<and> distinct (h' ! res) \<and> set (h' ! res) \<subseteq> {10, 20, 30, 40})"
proof -
  have u: "unit_draws dice"
    by (simp add: unit_draws_def dice_def)
  have e: "getRandomCardIds dice 0 2 ([[10, 20, 30, 40]], 0) =
      (2, [[10, 20, 30, 40], [10, 30, 20, 40], [10, 30]], 3)"
    by code_simp
  have j: "random_index (dice 1) 2 = 1"
    by code_simp
  have fy: "fisher_yates (\<lambda>k i. random_index (dice k) i) [10, 20, 30, 40] = [10, 30, 20, 40]"
    by code_simp
  show ?thesis
    using u e j fy getRandomCardIds_sample [OF u, of 0 "[[10, 20, 30, 40]]" 2 0]
    by simp
qed

section \<open>Tool dispatcher: proofs\<close>

lemma posted_append [simp]: "posted (es @ fs) = posted es @ posted fs"
  by (induction es rule: posted.induct) simp_all

lemma getMockResponse_posts:
  "posts (snd (getMockResponse action ps s)) = posts s
   \<and> posted (trace (snd (getMockResponse action ps s))) = posted (trace s)"
  by (simp add: getMockResponse_def Let_def console_error_def emit_def split: option.splits json.splits)

lemma request_posts:
  "posts s \<le> posts (snd (request cl action ps retries s))
   \<and> posted (trace (snd (request cl action ps retries s))) =
       posted (trace s) @ replicate (posts (snd (request cl action ps retries s)) - posts s) (action, ps)"
proof (induction cl action ps retries s rule: request.induct)
  case (1 cl action ps retries s)
  show ?case
  proof (cases "mockMode cl")
    case True
    then show ?thesis
      by (subst (1 2 3) request.simps) (simp add: getMockResponse_posts)
  next
    case False
    show ?thesis
    proof (cases "is_reset (transport cl (posts s) action ps) \<and> retries > 0")
      case True
      let ?s1 = "after s 1 [Post action ps, Log (ConnResetRetrying retries), Delay (500 * pow2 (3 - int retries))]"
      obtain code msg where out: "transport cl (posts s) action ps = AxiosFail code msg"
          and code: "code = Some ''ECONNRESET''"
        using True by (auto simp: is_reset_def split: http_outcome.splits)
      have s1: "delay (500 * pow2 (3 - int retries)) (console_error (ConnResetRetrying retries)
            (emit (Post action ps) (s\<lparr>posts := posts s + 1\<rparr>))) = ?s1"
        by (simp add: delay_def console_error_def emit_def after_def)
      have ih: "posts ?s1 \<le> posts (snd (request cl action ps (retries - 1) ?s1))
          \<and> posted (trace (snd (request cl action ps (retries - 1) ?s1))) =
              posted (trace ?s1) @ replicate (posts (snd (request cl action ps (retries - 1) ?s1)) - posts ?s1) (action, ps)"
        using "1.IH" [OF False refl out] code True unfolding s1 by simp
      have step: "request cl action ps retries s = request cl action ps (retries - 1) ?s1"
        using False True by (intro request_reset_step) simp_all
      have "Suc (posts s) \<le> posts (snd (request cl action ps (retries - 1) ?s1))"
        using ih by simp
      then have "replicate (posts (snd (request cl action ps (retries - 1) ?s1)) - posts s) (action, ps) =
          (action, ps) # replicate (posts (snd (request cl action ps (retries - 1) ?s1)) - Suc (posts s)) (action, ps)"
        by (metis Suc_diff_Suc Suc_le_lessD replicate_Suc)
      then show ?thesis
        using ih by (simp add: step)
    next
      case no_retry: False
      then show ?thesis
        using False
        by (subst (1 2 3) request.simps)
          (auto simp: is_reset_def emit_def delay_def Let_def split: http_outcome.splits)
    qed
  qed
qed

lemma snd_isAvailable: "snd (isAvailable cl s) = snd (request cl ''version'' [] 3 s)"
  by (cases "request cl ''version'' [] 3 s") (simp add: isAvailable_def split: sum.splits)

lemma isAvailable_posts:
  "posted (trace (snd (isAvailable cl s))) =
     posted (trace s) @ replicate (posts (snd (isAvailable cl s)) - posts s) (''version'', [])"
  using request_posts [of s cl "''version''" "[]" 3]
  by (simp add: snd_isAvailable)

lemma no_card_ids_iff:
  "no_card_ids arguments \<longleftrightarrow>
     falsy (arg arguments ''card_ids'') \<or> \<not> isArray (arg arguments ''card_ids'')
       \<or> length (items (arg arguments ''card_ids'')) = 0"
  by (auto simp: no_card_ids_def falsy_def isArray_def items_def split: option.splits json.splits)

lemma handleTagReviewedCards_no_ids:
  "no_card_ids arguments \<Longrightarrow>
   handleTagReviewedCards sv arguments s =
     (Inr \<lparr>content = Text ''Error: No card IDs provided. Please provide an array of card IDs to tag.'',
           isError = True\<rparr>, s)"
  unfolding no_card_ids_iff by (simp add: handleTagReviewedCards_def Let_def)

lemma callTool_no_ids:
  assumes "no_card_ids arguments"
  shows "isError (fst (callTool sv ''tag_reviewed_cards'' arguments s))
     \<and> snd (callTool sv ''tag_reviewed_cards'' arguments s) = snd (isAvailable (ankiClient sv) s)"
  by (simp add: callTool_def Let_def handleTagReviewedCards_no_ids [OF assms])

text \<open>
  C7 as stated fails: outside mock mode the call handler first probes the collaborator,
  so a \<open>tag_reviewed_cards\<close> invocation with an empty \<open>card_ids\<close> posts a \<open>version\<close> request
  before it is rejected.
\<close>

theorem tag_reviewed_cards_probe_counterexample:
  "callTool (real_server [] (Response None (VStr ''6''))) ''tag_reviewed_cards''
      (Some (JObj [(''card_ids'', JArr [])])) sys0 =
     (\<lparr>content = Text ''Error: No card IDs provided. Please provide an array of card IDs to tag.'',
       isError = True\<rparr>,
      \<lparr>posts = 1, draws = 0, clock_reads = 0, trace = [Post ''version'' [], Delay 50]\<rparr>)"
  by (simp add: callTool_def isAvailable_def request_success handleTagReviewedCards_no_ids
      no_card_ids_def arg_def real_server_def real_client_def scripted_def sys0_def after_def)

text \<open>
  C7, amended. For every invocation of \<open>tag_reviewed_cards\<close> whose \<open>card_ids\<close> is missing,
  not an array, or an empty array, the call handler returns an error-flagged envelope (its
  result is an envelope, never an exception), and what it has done is what the
  availability probe that precedes every dispatch does: every post made is the \<open>version\<close>
  request of that probe. \<open>handleTagReviewedCards\<close> itself returns the validation error with
  no effect at all.
\<close>

theorem tag_reviewed_cards_rejects_missing_ids:
  assumes "no_card_ids arguments"
  shows "isError (fst (callTool sv ''tag_reviewed_cards'' arguments s))
     \<and> snd (callTool sv ''tag_reviewed_cards'' arguments s) = snd (isAvailable (ankiClient sv) s)
     \<and> posted (trace (snd (callTool sv ''tag_reviewed_cards'' arguments s))) =
         posted (trace s)
           @ replicate (posts (snd (callTool sv ''tag_reviewed_cards'' arguments s)) - posts s) (''version'', [])
     \<and> handleTagReviewedCards sv arguments s =
         (Inr \<lparr>content = Text ''Error: No card IDs provided. Please provide an array of card IDs to tag.'',
               isError = True\<rparr>, s)"
  using callTool_no_ids [OF assms, of sv s] isAvailable_posts [of "ankiClient sv" s]
    handleTagReviewedCards_no_ids [OF assms, of sv s]
  by simp

theorem tag_reviewed_cards_rejects_missing_ids_witness:
  "no_card_ids (Some (JObj [(''card_ids'', JArr [])]))
   \<and> no_card_ids (Some (JObj [(''card_ids'', JStr ''12'')]))
   \<and> no_card_ids None
   \<and> isError (fst (callTool (real_server [] refused) ''tag_reviewed_cards''
                      (Some (JObj [(''card_ids'', JArr [])])) sys0))
   \<and> posted (trace (snd (callTool (real_server [] refused) ''tag_reviewed_cards''
                      (Some (JObj [(''card_ids'', JArr [])])) sys0))) = [(''version'', [])]
   \<and> isError (fst (callTool (real_server [] refused) ''tag_reviewed_cards''
                      (Some (JObj [(''card_ids'', JStr ''12'')])) sys0))
   \<and> isError (fst (callTool (real_server [] refused) ''tag_reviewed_cards'' None sys0))"
proof -
  have a: "no_card_ids (Some (JObj [(''card_ids'', JArr [])]))"
    and b: "no_card_ids (Some (JObj [(''card_ids'', JStr ''12'')]))"
    and c: "no_card_ids None"
    by (simp_all add: no_card_ids_def arg_def)
  have probe: "snd (isAvailable (ankiClient (real_server [] refused)) sys0) =
      \<lparr>posts = 1, draws = 0, clock_reads = 0, trace = [Post ''version'' []]\<rparr>"
    by (simp add: snd_isAvailable request_refused real_server_def real_client_def
        scripted_def refused_def sys0_def after_def)
  show ?thesis
    using a b c probe
      tag_reviewed_cards_rejects_missing_ids [OF a, of "real_server [] refused" sys0]
      tag_reviewed_cards_rejects_missing_ids [OF b, of "real_server [] refused" sys0]
      tag_reviewed_cards_rejects_missing_ids [OF c, of "real_server [] refused" sys0]
    by (simp add: sys0_def)
qed

end
